theory Spec2Isabelle
  imports Complex_Main "HOL-Library.Log_Nat"
begin

section \<open>Numbers of the JavaScript runtime\<close>

text \<open>
  Every number of the program is an IEEE-754 double.  Credits (balance, bet, win, timer)
  only ever hold integers far below \<open>2^53\<close>, on which addition, subtraction and the
  product with 100 are exact: they are modelled as \<open>int\<close>.  The payout of
  \<open>checkMatches\<close> multiplies and divides non-integers and then calls \<open>Math.floor\<close>, so
  there the rounding after each operation is written out: a double is the rational it
  denotes, and \<open>roundDouble\<close> rounds a rational to the nearest number with a 53-bit
  significand, ties to the even significand.  Exponent range, infinities and NaN are left
  out: the payout stays between 1 and \<open>2^53\<close>.  Pixel coordinates, which pass through
  square roots and never through a floor, are real numbers, without rounding.
\<close>

definition pow2 :: "int \<Rightarrow> rat" where
  "pow2 e = (if 0 \<le> e then 2 ^ nat e else 1 / 2 ^ nat (- e))"

text \<open>The binary exponent \<open>\<lfloor>log\<^sub>2 a\<rfloor>\<close> of a positive rational.\<close>

definition exponent :: "rat \<Rightarrow> int" where
  "exponent a =
     (if 1 \<le> a then int (floorlog 2 (nat \<lfloor>a\<rfloor>)) - 1
      else - int (floorlog 2 (nat (\<lceil>1 / a\<rceil> - 1))))"

definition roundHalfEven :: "rat \<Rightarrow> int" where
  "roundHalfEven q =
     (let f = \<lfloor>q\<rfloor>; r = q - of_int f
      in if r < 1 / 2 then f
         else if 1 / 2 < r then f + 1
         else if even f then f else f + 1)"

definition roundDouble :: "rat \<Rightarrow> rat" where
  "roundDouble v =
     (if v = 0 then 0
      else let e = exponent \<bar>v\<bar> - 52
           in sgn v * of_int (roundHalfEven (\<bar>v\<bar> / pow2 e)) * pow2 e)"

text \<open>\<open>a * b\<close> and \<open>a / b\<close> of the source, on doubles.\<close>

definition jsMul :: "rat \<Rightarrow> rat \<Rightarrow> rat" where
  "jsMul a b = roundDouble (a * b)"

definition jsDiv :: "rat \<Rightarrow> rat \<Rightarrow> rat" where
  "jsDiv a b = roundDouble (a / b)"

section \<open>Data model of the game component\<close>

datatype BubbleColor = red | blue | green | yellow | purple | orange

text \<open>
  A \<open>Bubble\<close> object.  The fields \<open>id\<close>, \<open>x\<close> and \<open>y\<close> of the source are named \<open>bid\<close>,
  \<open>xpos\<close> and \<open>ypos\<close>.  Pixel positions are real numbers.
\<close>

record Bubble =
  bid :: string
  row :: int
  col :: int
  xpos :: real
  ypos :: real
  color :: BubbleColor
  active :: bool

text \<open>A \<open>Particle\<close>; the random velocity \<open>vx\<close>, \<open>vy\<close> is not part of the model.\<close>

record Particle =
  p_x :: real
  p_y :: real
  p_life :: real
  p_color :: string

datatype GameMode = BETTING | PLAYING

text \<open>The \<open>mult\<close> column of \<open>MULTIPLIERS\<close>: the doubles written 1.2, 2.0, 3.5, 5.0, 10.0, 25.0.\<close>

fun mult :: "BubbleColor \<Rightarrow> rat" where
  "mult red = roundDouble (12 / 10)"
| "mult blue = 2"
| "mult green = 35 / 10"
| "mult yellow = 5"
| "mult purple = 10"
| "mult orange = 25"

text \<open>The decimal table the multipliers are written as.\<close>

fun baseMultiplier :: "BubbleColor \<Rightarrow> rat" where
  "baseMultiplier red = 12 / 10"
| "baseMultiplier blue = 2"
| "baseMultiplier green = 35 / 10"
| "baseMultiplier yellow = 5"
| "baseMultiplier purple = 10"
| "baseMultiplier orange = 25"

fun hex :: "BubbleColor \<Rightarrow> string" where
  "hex red = ''#ff5252''"
| "hex blue = ''#2196f3''"
| "hex green = ''#4caf50''"
| "hex yellow = ''#ffeb3b''"
| "hex purple = ''#e040fb''"
| "hex orange = ''#ff9100''"

definition MAX_DRAG_DIST :: real where
  "MAX_DRAG_DIST = 180"

definition BUBBLE_RADIUS :: real where
  "BUBBLE_RADIUS = 22"

text \<open>
  The component's state: the React state cells and the mutable refs.  A ref that mirrors
  a state cell (\<open>balanceRef\<close>, \<open>currentBetRef\<close>, \<open>bonusTimerRef\<close>, \<open>isLoadedRef\<close>,
  \<open>selectedColorRef\<close>) is the same field as the cell.  Bubbles are objects shared between
  \<open>bubbles.current\<close>, the search stack and the match list; a reference to a bubble is its
  index in \<open>bubbles\<close>, which only ever grows at the end.
\<close>

record GameState =
  bubbles :: "Bubble list"
  particles :: "Particle list"
  balance :: int
  currentBet :: int
  gameMode :: GameMode
  bonusTimer :: int
  lastWin :: int
  isLoaded :: bool
  availableColors :: "BubbleColor list"
  selectedColor :: BubbleColor
  captureRequest :: bool
  ballPos :: "real \<times> real"
  ballVel :: "real \<times> real"
  anchorPos :: "real \<times> real"
  isPinching :: bool
  isFlying :: bool
  handDetected :: bool
  showTutorial :: bool

section \<open>Match search and resolution\<close>

definition isNeighbor :: "Bubble \<Rightarrow> Bubble \<Rightarrow> bool" where
  "isNeighbor a b = (\<bar>row b - row a\<bar> \<le> 1 \<and> \<bar>col b - col a\<bar> \<le> 1)"

text \<open>
  \<open>bubbles.current.filter(b => b.active && !visited.has(b.id) && isNeighbor(current, b))\<close>,
  as the references of the bubbles kept, in the order of the collection.
\<close>

definition neighbors :: "Bubble list \<Rightarrow> string set \<Rightarrow> nat \<Rightarrow> nat list" where
  "neighbors bs visited current =
     filter (\<lambda>i. active (bs ! i) \<and> bid (bs ! i) \<notin> visited \<and> isNeighbor (bs ! current) (bs ! i))
       [0 ..< length bs]"

text \<open>
  The \<open>while (toCheck.length > 0)\<close> loop of \<open>checkMatches\<close>.  The stack \<open>toCheck\<close> is a
  list with its top at the head: \<open>pop\<close> takes the head and \<open>push(...neighbors)\<close> leaves the
  last neighbour on top.  The result is \<open>matches\<close>, in the order of the pushes.
\<close>

function searchLoop ::
  "Bubble list \<Rightarrow> BubbleColor \<Rightarrow> nat list \<Rightarrow> string set \<Rightarrow> nat list \<Rightarrow> nat list" where
  "searchLoop bs targetColor [] visited matches = matches"
| "searchLoop bs targetColor (current # toCheck) visited matches =
     (if bid (bs ! current) \<in> visited then searchLoop bs targetColor toCheck visited matches
      else let visited' = insert (bid (bs ! current)) visited
           in if color (bs ! current) = targetColor
              then searchLoop bs targetColor
                     (rev (neighbors bs visited' current) @ toCheck) visited' (matches @ [current])
              else searchLoop bs targetColor toCheck visited' matches)"
  by pat_completeness auto

definition unvisited :: "Bubble list \<Rightarrow> nat list \<Rightarrow> string set \<Rightarrow> string set" where
  "unvisited bs toCheck visited =
     (\<lambda>i. bid (bs ! i)) ` (set toCheck \<union> {0 ..< length bs}) - visited"

text \<open>The cluster \<open>matches\<close> that \<open>checkMatches\<close> computes from the bubble \<open>start\<close>.\<close>

definition cluster :: "Bubble list \<Rightarrow> nat \<Rightarrow> nat list" where
  "cluster bs start = searchLoop bs (color (bs ! start)) [start] {} []"

text \<open>
  \<open>Math.floor(currentBetRef.current * baseMult * bonusMult * (matches.length / 3))\<close>:
  three products and one quotient of doubles, left to right, each rounded.
\<close>

definition winAmount :: "int \<Rightarrow> BubbleColor \<Rightarrow> int \<Rightarrow> nat \<Rightarrow> int" where
  "winAmount bet targetColor timer n =
     (let baseMult = mult targetColor;
          bonusMult = (if 0 < timer then 2 else 1)
      in \<lfloor>jsMul (jsMul (jsMul (of_int bet) baseMult) bonusMult) (jsDiv (of_nat n) 3)\<rfloor>)"

text \<open>The formula of the payout over the rationals, with nothing rounded but the floor.\<close>

definition exactPayout :: "int \<Rightarrow> BubbleColor \<Rightarrow> bool \<Rightarrow> nat \<Rightarrow> int" where
  "exactPayout bet c bonusActive n =
     \<lfloor>of_int bet * baseMultiplier c * (if bonusActive then 2 else 1) * (of_nat n / 3)\<rfloor>"

definition createExplosion :: "real \<Rightarrow> real \<Rightarrow> string \<Rightarrow> Particle list \<Rightarrow> Particle list" where
  "createExplosion px py c ps =
     ps @ replicate 20 \<lparr>p_x = px, p_y = py, p_life = 1, p_color = c\<rparr>"

text \<open>One step of \<open>matches.forEach\<close>: the bubble is deactivated in place and explodes.\<close>

definition pop :: "GameState \<Rightarrow> nat \<Rightarrow> GameState" where
  "pop s i =
     (let b = bubbles s ! i
      in s\<lparr>bubbles := (bubbles s)[i := b\<lparr>active := False\<rparr>],
           particles := createExplosion (xpos b) (ypos b) (hex (color b)) (particles s)\<rparr>)"

text \<open>The elements of a list in the order of their first occurrence, as a JavaScript \<open>Set\<close> keeps them.\<close>

definition insertionOrder :: "'a list \<Rightarrow> 'a list" where
  "insertionOrder xs = rev (remdups (rev xs))"

definition updateAvailableColors :: "GameState \<Rightarrow> GameState" where
  "updateAvailableColors s =
     s\<lparr>availableColors := insertionOrder (map color (filter active (bubbles s)))\<rparr>"

definition checkMatches :: "GameState \<Rightarrow> nat \<Rightarrow> GameState \<times> bool" where
  "checkMatches s start =
     (let targetColor = color (bubbles s ! start);
          matches = cluster (bubbles s) start
      in if 3 \<le> length matches
         then let win = winAmount (currentBet s) targetColor (bonusTimer s) (length matches);
                  s1 = foldl pop s matches;
                  s2 = (if targetColor = orange then s1\<lparr>bonusTimer := 15\<rparr> else s1);
                  s3 = s2\<lparr>balance := balance s2 + win, lastWin := win\<rparr>
              in (updateAvailableColors s3, True)
         else (s, False))"

section \<open>Betting controls\<close>

definition handleBet :: "GameState \<Rightarrow> GameState" where
  "handleBet s =
     (if currentBet s \<le> balance s
      then s\<lparr>balance := balance s - currentBet s, isLoaded := True, gameMode := PLAYING,
             captureRequest := True\<rparr>
      else s)"

text \<open>\<open>handleBonusBuy\<close> returns the state and the text of the alert it raised, if any.\<close>

definition handleBonusBuy :: "GameState \<Rightarrow> GameState \<times> string option" where
  "handleBonusBuy s =
     (let cost = currentBet s * 100
      in if cost \<le> balance s
         then (s\<lparr>balance := balance s - cost, bonusTimer := 15, lastWin := 0\<rparr>, None)
         else (s, Some ''Insufficient balance for Feature Buy!''))"

text \<open>The two stake buttons and the one-second interval of the bonus timer.\<close>

definition betDown :: "GameState \<Rightarrow> GameState" where
  "betDown s = s\<lparr>currentBet := max 10 (currentBet s - 10)\<rparr>"

definition betUp :: "GameState \<Rightarrow> GameState" where
  "betUp s = s\<lparr>currentBet := currentBet s + 10\<rparr>"

definition tick :: "GameState \<Rightarrow> GameState" where
  "tick s = s\<lparr>bonusTimer := max 0 (bonusTimer s - 1)\<rparr>"


section \<open>Grid initialisation\<close>

definition GRID_COLS :: nat where
  "GRID_COLS = 12"

definition ROW_HEIGHT :: real where
  "ROW_HEIGHT = BUBBLE_RADIUS * sqrt 3"

fun digits :: "nat \<Rightarrow> string" where
  "digits n = (if n < 10 then [char_of (48 + n)] else digits (n div 10) @ [char_of (48 + n mod 10)])"

text \<open>
  \<open>initGrid\<close>.  The draws of \<open>Math.random\<close> are an argument: \<open>draw r c\<close> is \<open>None\<close> when
  the cell of row \<open>r\<close> and column \<open>c\<close> is skipped and the colour drawn for it otherwise.
\<close>

definition gridBubble :: "real \<Rightarrow> nat \<Rightarrow> nat \<Rightarrow> BubbleColor \<Rightarrow> Bubble" where
  "gridBubble width r c k =
     (let xOffset = (width - real GRID_COLS * BUBBLE_RADIUS * 2) / 2 + BUBBLE_RADIUS;
          isOdd = odd r
      in \<lparr>bid = digits r @ ''-'' @ digits c, row = int r, col = int c,
          xpos = xOffset + real c * (BUBBLE_RADIUS * 2) + (if isOdd then BUBBLE_RADIUS else 0),
          ypos = BUBBLE_RADIUS + real r * ROW_HEIGHT,
          color = k, active = True\<rparr>)"

definition initGrid :: "real \<Rightarrow> (nat \<Rightarrow> nat \<Rightarrow> BubbleColor option) \<Rightarrow> Bubble list" where
  "initGrid width draw =
     concat (map (\<lambda>r. concat (map (\<lambda>c. case draw r c of None \<Rightarrow> [] | Some k \<Rightarrow> [gridBubble width r c k])
                                  [0 ..< (if odd r then GRID_COLS - 1 else GRID_COLS)]))
                 [0 ..< 5])"

definition SLINGSHOT_BOTTOM_OFFSET :: real where
  "SLINGSHOT_BOTTOM_OFFSET = 220"

text \<open>The state once the component is mounted on a canvas of the given size.\<close>

definition initialState :: "real \<Rightarrow> real \<Rightarrow> (nat \<Rightarrow> nat \<Rightarrow> BubbleColor option) \<Rightarrow> GameState" where
  "initialState width height draw =
     updateAvailableColors
       \<lparr>bubbles = initGrid width draw, particles = [], balance = 1000, currentBet = 10,
        gameMode = BETTING, bonusTimer = 0, lastWin = 0, isLoaded = False,
        availableColors = [], selectedColor = red, captureRequest = False,
        ballPos = (width / 2, height - SLINGSHOT_BOTTOM_OFFSET), ballVel = (0, 0),
        anchorPos = (width / 2, height - SLINGSHOT_BOTTOM_OFFSET),
        isPinching = False, isFlying = False, handDetected = False, showTutorial = True\<rparr>"

section \<open>The frame callback\<close>

definition PINCH_THRESHOLD :: real where
  "PINCH_THRESHOLD = 8 / 100"

record Landmark =
  lm_x :: real
  lm_y :: real
  lm_z :: real

text \<open>
  What one call of \<open>onResults\<close> reads from outside: the thumb tip \<open>lm[4]\<close> and index tip
  \<open>lm[8]\<close> of the first hand (\<open>None\<close> when no hand is reported), the canvas size and the
  text of \<open>Date.now()\<close>.
\<close>

record Frame =
  hand :: "(Landmark \<times> Landmark) option"
  canvasWidth :: real
  canvasHeight :: real
  now :: string

text \<open>
  The position of the ball while aimed, lines 305 to 309: \<open>d || 1\<close> is 1 when \<open>d\<close> is 0.
\<close>

definition aimPosition :: "real \<times> real \<Rightarrow> real \<times> real \<Rightarrow> real \<times> real" where
  "aimPosition anchor p =
     (let dx = fst p - fst anchor;
          dy = snd p - snd anchor;
          d = sqrt (dx * dx + dy * dy);
          scale = min d MAX_DRAG_DIST / (if d = 0 then 1 else d)
      in (fst anchor + dx * scale, snd anchor + dy * scale))"

definition gesture :: "Frame \<Rightarrow> GameState \<Rightarrow> GameState" where
  "gesture f s =
     (case (if showTutorial s then None else hand f) of
        Some (thumb, index) \<Rightarrow>
          (let s = s\<lparr>handDetected := True\<rparr>;
               pX = lm_x index * canvasWidth f;
               pY = lm_y index * canvasHeight f;
               dist = sqrt ((lm_x index - lm_x thumb)\<^sup>2 + (lm_y index - lm_y thumb)\<^sup>2
                            + (lm_z index - lm_z thumb)\<^sup>2);
               currentlyPinching = (dist < PINCH_THRESHOLD)
           in if currentlyPinching \<and> isLoaded s \<and> \<not> isFlying s
              then s\<lparr>isPinching := True, ballPos := aimPosition (anchorPos s) (pX, pY)\<rparr>
              else if isPinching s
              then (let dx = fst (anchorPos s) - fst (ballPos s);
                        dy = snd (anchorPos s) - snd (ballPos s)
                    in s\<lparr>isPinching := False, isFlying := True, isLoaded := False,
                         ballVel := (dx * (22 / 100), dy * (22 / 100))\<rparr>)
              else s)
      | None \<Rightarrow>
          (let s = s\<lparr>handDetected := False\<rparr>
           in if isPinching s then s\<lparr>isPinching := False, ballPos := anchorPos s\<rparr> else s))"

text \<open>The collision test of a flying ball at position \<open>p\<close>.\<close>

definition hit :: "Frame \<Rightarrow> Bubble list \<Rightarrow> real \<times> real \<Rightarrow> bool" where
  "hit f bs p =
     ((\<exists>b \<in> set bs. active b
          \<and> sqrt ((fst p - xpos b)\<^sup>2 + (snd p - ypos b)\<^sup>2) < BUBBLE_RADIUS * (18 / 10))
      \<or> snd p < 0 \<or> fst p < 0 \<or> canvasWidth f < fst p)"

text \<open>
  Lines 339 to 341: the flight ends and the ball becomes a bubble, pushed at the end of
  the collection.
\<close>

definition pushBall :: "Frame \<Rightarrow> GameState \<Rightarrow> GameState" where
  "pushBall f s =
     (let newB = \<lparr>bid = now f, row = 0, col = 0, xpos = fst (ballPos s), ypos = snd (ballPos s),
                  color = selectedColor s, active = True\<rparr>
      in s\<lparr>isFlying := False, bubbles := bubbles s @ [newB]\<rparr>)"

text \<open>Lines 342 to 344: the match search starts from the bubble just pushed.\<close>

definition land :: "Frame \<Rightarrow> GameState \<Rightarrow> GameState" where
  "land f s =
     (let s1 = pushBall f s;
          s2 = fst (checkMatches s1 (length (bubbles s)))
      in s2\<lparr>ballPos := anchorPos s2, gameMode := BETTING\<rparr>)"

definition flight :: "Frame \<Rightarrow> GameState \<Rightarrow> GameState" where
  "flight f s =
     (if isFlying s
      then (let s1 = s\<lparr>ballPos := (fst (ballPos s) + fst (ballVel s),
                                    snd (ballPos s) + snd (ballVel s))\<rparr>
            in if hit f (bubbles s1) (ballPos s1) then land f s1 else s1)
      else s)"

text \<open>
  \<open>onResults\<close> without its drawing.  The screenshot request is cleared here; the hint it
  starts arrives later, as a change of the selected colour.
\<close>

definition onResults :: "Frame \<Rightarrow> GameState \<Rightarrow> GameState" where
  "onResults f s = (flight f (gesture f s))\<lparr>captureRequest := False\<rparr>"

section \<open>Everything that changes the state\<close>

text \<open>
  The events of the interface and of the hand tracker.  The betting controls are on screen
  only in the mode \<open>BETTING\<close> and the bonus button is disabled while the timer runs;
  here every event may occur in every state, which covers what the interface allows.
  A hint that arrives changes the selected colour, as a click on a colour does.
\<close>

datatype Event =
    Bet | BonusBuy | BetDown | BetUp | Tick
  | SelectColor BubbleColor | Tutorial bool | Results Frame

fun step :: "Event \<Rightarrow> GameState \<Rightarrow> GameState" where
  "step Bet s = handleBet s"
| "step BonusBuy s = fst (handleBonusBuy s)"
| "step BetDown s = betDown s"
| "step BetUp s = betUp s"
| "step Tick s = tick s"
| "step (SelectColor c) s = s\<lparr>selectedColor := c\<rparr>"
| "step (Tutorial b) s = s\<lparr>showTutorial := b\<rparr>"
| "step (Results f) s = onResults f s"

inductive reachable :: "GameState \<Rightarrow> bool" where
  mounted: "reachable (initialState width height draw)"
| after: "reachable s \<Longrightarrow> reachable (step e s)"


section \<open>The hint client\<close>



text \<open>A value that \<open>JSON.parse\<close> returns; \<open>undefined\<close> is \<open>None\<close> of \<open>json option\<close>.\<close>

datatype json =
    JNull | JBool bool | JNum rat | JStr string
  | JArr "json list" | JObj "(string \<times> json) list"


record TargetCandidate =
  t_id :: string
  t_color :: string
  t_size :: int
  t_row :: int
  t_col :: int
  t_multiplier :: rat
  t_description :: string
























section \<open>Notions the properties are stated with\<close>

text \<open>
  \<open>sameColorPath bs start i\<close>: the bubble \<open>i\<close> is joined to \<open>start\<close> by a chain of neighbours in
  which every bubble after \<open>start\<close> is active and has the colour of \<open>start\<close>.
\<close>

inductive sameColorPath :: "Bubble list \<Rightarrow> nat \<Rightarrow> nat \<Rightarrow> bool"
  for bs :: "Bubble list" and start :: nat where
  origin: "sameColorPath bs start start"
| link: "sameColorPath bs start j \<Longrightarrow> i < length bs \<Longrightarrow> active (bs ! i) \<Longrightarrow>
         color (bs ! i) = color (bs ! start) \<Longrightarrow> isNeighbor (bs ! j) (bs ! i) \<Longrightarrow>
         sameColorPath bs start i"

text \<open>What the search keeps true of the bubbles on its stack and of the bubbles matched.\<close>

definition frontier :: "Bubble list \<Rightarrow> nat \<Rightarrow> nat \<Rightarrow> bool" where
  "frontier bs start i =
     (i < length bs \<and> active (bs ! i)
      \<and> (\<exists>j. sameColorPath bs start j \<and> isNeighbor (bs ! j) (bs ! i)))"

definition matched :: "Bubble list \<Rightarrow> nat \<Rightarrow> nat \<Rightarrow> bool" where
  "matched bs start i =
     (i < length bs \<and> active (bs ! i) \<and> color (bs ! i) = color (bs ! start)
      \<and> sameColorPath bs start i)"


text \<open>A bubble after an operation: the same object, or the same with its flag cleared.\<close>

definition onlyDeactivated :: "Bubble \<Rightarrow> Bubble \<Rightarrow> bool" where
  "onlyDeactivated b b' = (b' = b \<or> b' = b\<lparr>active := False\<rparr>)"

definition keepsBubbles :: "Bubble list \<Rightarrow> Bubble list \<Rightarrow> bool" where
  "keepsBubbles bs bs' =
     (length bs \<le> length bs' \<and> (\<forall>i < length bs. onlyDeactivated (bs ! i) (bs' ! i)))"

definition solvent :: "GameState \<Rightarrow> bool" where
  "solvent s = (0 \<le> balance s \<and> 10 \<le> currentBet s)"


section \<open>Sample boards and runtimes\<close>

text \<open>A top row of twelve green bubbles, the stake raised to 30, a green ball armed.\<close>

definition greenRow :: "nat \<Rightarrow> nat \<Rightarrow> BubbleColor option" where
  "greenRow r c = (if r = 0 then Some green else None)"

definition stake30 :: GameState where
  "stake30 =
     step (SelectColor green) (step Bet (step BetUp (step BetUp (initialState 1000 800 greenRow))))"

text \<open>Green, red, green in the top row; a green ball armed at the stake of 10.\<close>

definition mixedRow :: "nat \<Rightarrow> nat \<Rightarrow> BubbleColor option" where
  "mixedRow r c =
     (if r = 0 \<and> c < 3 then Some (if c = 1 then red else green) else None)"

definition mixedArmed :: GameState where
  "mixedArmed = step (SelectColor green) (step Bet (initialState 1000 800 mixedRow))"

text \<open>Two orange bubbles in the top row; an orange ball armed at the stake of 10.\<close>

definition orangeRow :: "nat \<Rightarrow> nat \<Rightarrow> BubbleColor option" where
  "orangeRow r c = (if r = 0 \<and> c < 2 then Some orange else None)"

definition orangeArmed :: GameState where
  "orangeArmed = step (SelectColor orange) (step Bet (initialState 1000 800 orangeRow))"

text \<open>
  The same boards and states written out: a top row on a canvas 1000 wide, and the state
  after the stake is paid.
\<close>

definition topRow :: "BubbleColor list \<Rightarrow> Bubble list" where
  "topRow ks =
     map (\<lambda>c. \<lparr>bid = digits 0 @ ''-'' @ digits c, row = 0, col = int c,
                xpos = 258 + 44 * real c, ypos = 22, color = ks ! c, active = True\<rparr>)
       [0 ..< length ks]"

definition armed :: "Bubble list \<Rightarrow> BubbleColor list \<Rightarrow> BubbleColor \<Rightarrow> int \<Rightarrow> GameState" where
  "armed bs ks k bet =
     \<lparr>bubbles = bs, particles = [], balance = 1000 - bet, currentBet = bet,
      gameMode = PLAYING, bonusTimer = 0, lastWin = 0, isLoaded = True,
      availableColors = ks, selectedColor = k, captureRequest = True,
      ballPos = (500, 580), ballVel = (0, 0), anchorPos = (500, 580),
      isPinching = False, isFlying = False, handDetected = False, showTutorial = True\<rparr>"

definition impact :: Frame where
  "impact = \<lparr>hand = None, canvasWidth = 1000, canvasHeight = 800, now = ''1767225600000''\<rparr>"







section \<open>The search terminates\<close>

lemma set_neighbors: "set (neighbors bs visited current) \<subseteq> {0 ..< length bs}"
  by (auto simp: neighbors_def)

lemma unvisited_finite: "finite (unvisited bs toCheck visited)"
  by (simp add: unvisited_def)

lemma unvisited_pop:
  "card (unvisited bs toCheck visited) \<le> card (unvisited bs (current # toCheck) visited)"
  by (rule card_mono) (auto simp: unvisited_def)

lemma unvisited_skip:
  assumes "bid (bs ! current) \<notin> visited"
  shows "card (unvisited bs toCheck (insert (bid (bs ! current)) visited))
       < card (unvisited bs (current # toCheck) visited)"
proof (rule psubset_card_mono)
  show "finite (unvisited bs (current # toCheck) visited)"
    by (rule unvisited_finite)
  have "bid (bs ! current) \<in> unvisited bs (current # toCheck) visited"
    using assms by (auto simp: unvisited_def)
  moreover have "bid (bs ! current) \<notin> unvisited bs toCheck (insert (bid (bs ! current)) visited)"
    by (simp add: unvisited_def)
  moreover have "unvisited bs toCheck (insert (bid (bs ! current)) visited)
               \<subseteq> unvisited bs (current # toCheck) visited"
    by (auto simp: unvisited_def)
  ultimately show "unvisited bs toCheck (insert (bid (bs ! current)) visited)
                 \<subset> unvisited bs (current # toCheck) visited"
    by blast
qed

lemma unvisited_expand:
  assumes "bid (bs ! current) \<notin> visited"
  shows "card (unvisited bs (rev (neighbors bs v' current) @ toCheck)
                 (insert (bid (bs ! current)) visited))
       < card (unvisited bs (current # toCheck) visited)"
proof -
  have "unvisited bs (rev (neighbors bs v' current) @ toCheck) (insert (bid (bs ! current)) visited)
      = unvisited bs toCheck (insert (bid (bs ! current)) visited)"
    using set_neighbors [of bs v' current] by (auto simp: unvisited_def)
  then show ?thesis
    using unvisited_skip [OF assms] by simp
qed

termination searchLoop
proof (relation "(\<lambda>(bs, c, toCheck, visited, m). card (unvisited bs toCheck visited))
                   <*mlex*> measure (\<lambda>(bs, c, toCheck, visited, m). length toCheck)")
  show "wf ((\<lambda>(bs, c, toCheck, visited, m). card (unvisited bs toCheck visited))
              <*mlex*> measure (\<lambda>(bs, c, toCheck, visited, m). length toCheck))"
    by (simp add: wf_mlex)
next
  fix bs :: "Bubble list" and targetColor :: BubbleColor and current :: nat
    and toCheck :: "nat list" and visited :: "string set" and matches :: "nat list"
  show "((bs, targetColor, toCheck, visited, matches),
         (bs, targetColor, current # toCheck, visited, matches))
        \<in> (\<lambda>(bs, c, toCheck, visited, m). card (unvisited bs toCheck visited))
            <*mlex*> measure (\<lambda>(bs, c, toCheck, visited, m). length toCheck)"
    by (rule mlex_leq) (simp_all add: unvisited_pop)
next
  fix bs :: "Bubble list" and targetColor :: BubbleColor and current :: nat
    and toCheck :: "nat list" and visited :: "string set" and matches :: "nat list"
    and visited' :: "string set"
  assume "bid (bs ! current) \<notin> visited" and "visited' = insert (bid (bs ! current)) visited"
  then show "((bs, targetColor, rev (neighbors bs visited' current) @ toCheck, visited',
               matches @ [current]),
              (bs, targetColor, current # toCheck, visited, matches))
        \<in> (\<lambda>(bs, c, toCheck, visited, m). card (unvisited bs toCheck visited))
            <*mlex*> measure (\<lambda>(bs, c, toCheck, visited, m). length toCheck)"
    by (intro mlex_less) (simp add: unvisited_expand)
next
  fix bs :: "Bubble list" and targetColor :: BubbleColor and current :: nat
    and toCheck :: "nat list" and visited :: "string set" and matches :: "nat list"
    and visited' :: "string set"
  assume "bid (bs ! current) \<notin> visited" and "visited' = insert (bid (bs ! current)) visited"
  then show "((bs, targetColor, toCheck, visited', matches),
              (bs, targetColor, current # toCheck, visited, matches))
        \<in> (\<lambda>(bs, c, toCheck, visited, m). card (unvisited bs toCheck visited))
            <*mlex*> measure (\<lambda>(bs, c, toCheck, visited, m). length toCheck)"
    by (intro mlex_less) (simp add: unvisited_skip)
qed

section \<open>What the search returns\<close>

lemma searchLoop_subset:
  "set (searchLoop bs c toCheck visited matches)
     \<subseteq> set matches \<union> set toCheck \<union> {0 ..< length bs}"
proof (induction bs c toCheck visited matches rule: searchLoop.induct)
  case (1 bs targetColor visited matches)
  then show ?case by simp
next
  case (2 bs targetColor current toCheck visited matches)
  let ?v = "insert (bid (bs ! current)) visited"
  show ?case
  proof (cases "bid (bs ! current) \<in> visited")
    case True
    have eq: "searchLoop bs targetColor (current # toCheck) visited matches
        = searchLoop bs targetColor toCheck visited matches"
      using True by simp
    have "set matches \<union> set toCheck \<union> {0 ..< length bs}
        \<subseteq> set matches \<union> set (current # toCheck) \<union> {0 ..< length bs}"
      by auto
    then show ?thesis
      unfolding eq using 2(1) [OF True] by (rule order_trans [rotated])
  next
    case False
    note unseen = this
    show ?thesis
    proof (cases "color (bs ! current) = targetColor")
      case True
      have eq: "searchLoop bs targetColor (current # toCheck) visited matches
          = searchLoop bs targetColor (rev (neighbors bs ?v current) @ toCheck) ?v
              (matches @ [current])"
        using unseen True by (simp add: Let_def)
      have "set (matches @ [current]) \<union> set (rev (neighbors bs ?v current) @ toCheck)
              \<union> {0 ..< length bs}
          \<subseteq> set matches \<union> set (current # toCheck) \<union> {0 ..< length bs}"
        using set_neighbors [of bs ?v current] by auto
      then show ?thesis
        unfolding eq using 2(2) [OF unseen refl True] by (rule order_trans [rotated])
    next
      case False
      have eq: "searchLoop bs targetColor (current # toCheck) visited matches
          = searchLoop bs targetColor toCheck ?v matches"
        using unseen False by (simp add: Let_def)
      have "set matches \<union> set toCheck \<union> {0 ..< length bs}
          \<subseteq> set matches \<union> set (current # toCheck) \<union> {0 ..< length bs}"
        by auto
      then show ?thesis
        unfolding eq using 2(3) [OF unseen refl False] by (rule order_trans [rotated])
    qed
  qed
qed

lemma cluster_in_range:
  assumes "start < length bs" and "i \<in> set (cluster bs start)"
  shows "i < length bs"
proof -
  have "set (cluster bs start) \<subseteq> set [] \<union> set [start] \<union> {0 ..< length bs}"
    unfolding cluster_def by (rule searchLoop_subset)
  then show ?thesis
    using assms by auto
qed

lemma frontier_matched:
  assumes "frontier bs start i" and "color (bs ! i) = color (bs ! start)"
  shows "matched bs start i"
proof -
  from assms(1) obtain j where "i < length bs" "active (bs ! i)" "sameColorPath bs start j"
    "isNeighbor (bs ! j) (bs ! i)"
    unfolding frontier_def by blast
  then show ?thesis
    unfolding matched_def using assms(2) sameColorPath.link [of bs start j i] by blast
qed

lemma neighbors_frontier:
  assumes "matched bs start j" and "i \<in> set (neighbors bs v j)"
  shows "frontier bs start i"
proof -
  have "i < length bs" "active (bs ! i)" "isNeighbor (bs ! j) (bs ! i)"
    using assms(2) by (simp_all add: neighbors_def)
  moreover have "sameColorPath bs start j"
    using assms(1) by (simp add: matched_def)
  ultimately show ?thesis
    unfolding frontier_def by blast
qed

lemma searchLoop_matched:
  assumes "\<forall>i \<in> set toCheck. frontier bs start i"
    and "\<forall>i \<in> set matches. matched bs start i"
    and "c = color (bs ! start)"
  shows "\<forall>i \<in> set (searchLoop bs c toCheck visited matches). matched bs start i"
  using assms
proof (induction bs c toCheck visited matches rule: searchLoop.induct)
  case (1 bs targetColor visited matches)
  then show ?case by simp
next
  case (2 bs targetColor current toCheck visited matches)
  let ?v = "insert (bid (bs ! current)) visited"
  have stack: "\<forall>i \<in> set toCheck. frontier bs start i" and top: "frontier bs start current"
    using 2(4) by simp_all
  show ?case
  proof (cases "bid (bs ! current) \<in> visited")
    case True
    have eq: "searchLoop bs targetColor (current # toCheck) visited matches
        = searchLoop bs targetColor toCheck visited matches"
      using True by simp
    show ?thesis
      unfolding eq by (rule 2(1) [OF True stack 2(5) 2(6)])
  next
    case False
    note unseen = this
    show ?thesis
    proof (cases "color (bs ! current) = targetColor")
      case True
      have cur: "matched bs start current"
        using top True 2(6) by (intro frontier_matched) simp_all
      have pushed: "\<forall>i \<in> set (rev (neighbors bs ?v current) @ toCheck). frontier bs start i"
        using stack neighbors_frontier [OF cur] by auto
      have found: "\<forall>i \<in> set (matches @ [current]). matched bs start i"
        using 2(5) cur by simp
      have eq: "searchLoop bs targetColor (current # toCheck) visited matches
          = searchLoop bs targetColor (rev (neighbors bs ?v current) @ toCheck) ?v
              (matches @ [current])"
        using unseen True by (simp add: Let_def)
      show ?thesis
        unfolding eq by (rule 2(2) [OF unseen refl True pushed found 2(6)])
    next
      case False
      have eq: "searchLoop bs targetColor (current # toCheck) visited matches
          = searchLoop bs targetColor toCheck ?v matches"
        using unseen False by (simp add: Let_def)
      show ?thesis
        unfolding eq by (rule 2(3) [OF unseen refl False stack 2(5) 2(6)])
    qed
  qed
qed

lemma isNeighbor_refl: "isNeighbor b b"
  by (simp add: isNeighbor_def)


section \<open>What match resolution changes\<close>

lemma pop_bubbles:
  "bubbles (pop s i) = (bubbles s)[i := (bubbles s ! i)\<lparr>active := False\<rparr>]"
  by (simp add: pop_def Let_def)

lemma pop_frame:
  "pop s i = s\<lparr>bubbles := bubbles (pop s i), particles := particles (pop s i)\<rparr>"
  by (simp add: pop_def Let_def)

lemma foldl_pop_frame:
  "foldl pop s ms = s\<lparr>bubbles := bubbles (foldl pop s ms), particles := particles (foldl pop s ms)\<rparr>"
proof (induction ms arbitrary: s)
  case Nil
  show ?case by simp
next
  case (Cons m ms)
  have "foldl pop (pop s m) ms
      = (pop s m)\<lparr>bubbles := bubbles (foldl pop (pop s m) ms),
                  particles := particles (foldl pop (pop s m) ms)\<rparr>"
    by (rule Cons.IH)
  also have "\<dots> = s\<lparr>bubbles := bubbles (foldl pop (pop s m) ms),
                      particles := particles (foldl pop (pop s m) ms)\<rparr>"
    by (subst pop_frame) simp
  finally show ?case by simp
qed

lemma foldl_pop_length: "length (bubbles (foldl pop s ms)) = length (bubbles s)"
  by (induction ms arbitrary: s) (simp_all add: pop_bubbles)

lemma foldl_pop_nth:
  "k < length (bubbles s) \<Longrightarrow>
   bubbles (foldl pop s ms) ! k
     = (if k \<in> set ms then (bubbles s ! k)\<lparr>active := False\<rparr> else bubbles s ! k)"
proof (induction ms arbitrary: s)
  case Nil
  show ?case by simp
next
  case (Cons m ms)
  have "k < length (bubbles (pop s m))"
    using Cons.prems by (simp add: pop_bubbles)
  from Cons.IH [OF this] show ?case
    using Cons.prems by (cases "k = m") (simp_all add: pop_bubbles)
qed

lemma checkMatches_none:
  "length (cluster (bubbles s) start) < 3 \<Longrightarrow> checkMatches s start = (s, False)"
  by (simp add: checkMatches_def Let_def)

lemma checkMatches_some:
  assumes "3 \<le> length (cluster (bubbles s) start)"
  shows "snd (checkMatches s start)"
    and "bubbles (fst (checkMatches s start)) = bubbles (foldl pop s (cluster (bubbles s) start))"
    and "lastWin (fst (checkMatches s start))
         = winAmount (currentBet s) (color (bubbles s ! start)) (bonusTimer s)
             (length (cluster (bubbles s) start))"
    and "balance (fst (checkMatches s start))
         = balance s + winAmount (currentBet s) (color (bubbles s ! start)) (bonusTimer s)
             (length (cluster (bubbles s) start))"
    and "bonusTimer (fst (checkMatches s start))
         = (if color (bubbles s ! start) = orange then 15 else bonusTimer s)"
    and "currentBet (fst (checkMatches s start)) = currentBet s"
proof -
  let ?ms = "cluster (bubbles s) start"
  have f: "foldl pop s ?ms
      = s\<lparr>bubbles := bubbles (foldl pop s ?ms), particles := particles (foldl pop s ?ms)\<rparr>"
    by (rule foldl_pop_frame)
  have b: "balance (foldl pop s ?ms) = balance s" by (subst f) simp
  have t: "bonusTimer (foldl pop s ?ms) = bonusTimer s" by (subst f) simp
  have c: "currentBet (foldl pop s ?ms) = currentBet s" by (subst f) simp
  show "snd (checkMatches s start)"
    using assms by (simp add: checkMatches_def Let_def)
  show "bubbles (fst (checkMatches s start)) = bubbles (foldl pop s ?ms)"
    using assms by (simp add: checkMatches_def Let_def updateAvailableColors_def)
  show "lastWin (fst (checkMatches s start))
         = winAmount (currentBet s) (color (bubbles s ! start)) (bonusTimer s) (length ?ms)"
    using assms by (simp add: checkMatches_def Let_def updateAvailableColors_def)
  show "balance (fst (checkMatches s start))
         = balance s + winAmount (currentBet s) (color (bubbles s ! start)) (bonusTimer s) (length ?ms)"
    using assms b by (simp add: checkMatches_def Let_def updateAvailableColors_def)
  show "bonusTimer (fst (checkMatches s start))
         = (if color (bubbles s ! start) = orange then 15 else bonusTimer s)"
    using assms t by (simp add: checkMatches_def Let_def updateAvailableColors_def)
  show "currentBet (fst (checkMatches s start)) = currentBet s"
    using assms c by (simp add: checkMatches_def Let_def updateAvailableColors_def)
qed

section \<open>The payout is never negative\<close>

lemma pow2_pos: "0 < pow2 e"
  by (simp add: pow2_def)

lemma roundHalfEven_nonneg: "0 \<le> q \<Longrightarrow> 0 \<le> roundHalfEven q"
proof -
  assume "0 \<le> q"
  then have "0 \<le> \<lfloor>q\<rfloor>" by simp
  then show ?thesis
    by (simp add: roundHalfEven_def Let_def)
qed

lemma roundDouble_nonneg: "0 \<le> v \<Longrightarrow> 0 \<le> roundDouble v"
proof (cases "v = 0")
  case True
  then show ?thesis by (simp add: roundDouble_def)
next
  case False
  assume "0 \<le> v"
  with False have pos: "0 < v" by simp
  let ?e = "exponent \<bar>v\<bar> - 52"
  have "0 \<le> \<bar>v\<bar> / pow2 ?e"
    using pow2_pos [of ?e] by simp
  then have "0 \<le> roundHalfEven (\<bar>v\<bar> / pow2 ?e)"
    by (rule roundHalfEven_nonneg)
  then have "0 \<le> (of_int (roundHalfEven (\<bar>v\<bar> / pow2 ?e)) :: rat) * pow2 ?e"
    using pow2_pos [of ?e] by simp
  then show ?thesis
    using pos False by (simp add: roundDouble_def Let_def)
qed

lemma mult_nonneg: "0 \<le> mult c"
  by (cases c) (simp_all add: roundDouble_nonneg)

lemma jsMul_nonneg: "0 \<le> a \<Longrightarrow> 0 \<le> b \<Longrightarrow> 0 \<le> jsMul a b"
  by (simp add: jsMul_def roundDouble_nonneg)

lemma jsDiv_nonneg: "0 \<le> a \<Longrightarrow> 0 \<le> b \<Longrightarrow> 0 \<le> jsDiv a b"
  by (simp add: jsDiv_def roundDouble_nonneg)

lemma winAmount_nonneg:
  assumes "0 \<le> bet"
  shows "0 \<le> winAmount bet c timer n"
proof -
  have "0 \<le> jsMul (of_int bet) (mult c)"
    using assms by (simp add: jsMul_nonneg mult_nonneg)
  then have "0 \<le> jsMul (jsMul (of_int bet) (mult c)) (if 0 < timer then 2 else 1)"
    by (simp add: jsMul_nonneg)
  moreover have "0 \<le> jsDiv (of_nat n) 3"
    by (simp add: jsDiv_nonneg)
  ultimately have "0 \<le> jsMul (jsMul (jsMul (of_int bet) (mult c)) (if 0 < timer then 2 else 1))
                        (jsDiv (of_nat n) 3)"
    by (rule jsMul_nonneg)
  then show ?thesis
    by (simp add: winAmount_def Let_def)
qed

text \<open>
  The doubles written 0.1 and 1.2, the double 13 / 3, and the product that the floor of
  the payout meets at a stake of 30 on a green cluster of 13.
\<close>

lemma roundDouble_samples:
  "roundDouble (1 / 10) = 3602879701896397 / 2 ^ 55"
  "roundDouble (12 / 10) = 5404319552844595 / 2 ^ 52"
  "jsDiv 13 3 = 4878899596318037 / 2 ^ 50"
  "jsMul 105 (jsDiv 13 3) = 8004444650209279 / 2 ^ 44"
  "jsMul 105 (jsDiv 13 3) < 455"
  by code_simp+

text \<open>The two payouts the specification works out by hand.\<close>

lemma payout_examples: "winAmount 10 red 0 3 = 12" "winAmount 10 orange 15 6 = 1000"
  by code_simp+

section \<open>What the operations keep\<close>

lemma keepsBubbles_refl: "keepsBubbles bs bs"
  by (simp add: keepsBubbles_def onlyDeactivated_def)

lemma keepsBubbles_append: "keepsBubbles bs (bs @ [b])"
  by (simp add: keepsBubbles_def onlyDeactivated_def nth_append)

lemma onlyDeactivated_trans:
  "onlyDeactivated a b \<Longrightarrow> onlyDeactivated b c \<Longrightarrow> onlyDeactivated a c"
  by (auto simp: onlyDeactivated_def)

lemma keepsBubbles_trans:
  assumes "keepsBubbles as bs" and "keepsBubbles bs cs"
  shows "keepsBubbles as cs"
proof -
  have "length as \<le> length cs"
    using assms by (simp add: keepsBubbles_def)
  moreover have "onlyDeactivated (as ! i) (cs ! i)" if "i < length as" for i
  proof -
    have "onlyDeactivated (as ! i) (bs ! i)" "onlyDeactivated (bs ! i) (cs ! i)"
      using assms that by (simp_all add: keepsBubbles_def)
    then show ?thesis by (rule onlyDeactivated_trans)
  qed
  ultimately show ?thesis
    by (simp add: keepsBubbles_def)
qed

lemma checkMatches_bubbles:
  "length (bubbles (fst (checkMatches s start))) = length (bubbles s)"
  "i < length (bubbles s) \<Longrightarrow>
   bubbles (fst (checkMatches s start)) ! i
     = (if 3 \<le> length (cluster (bubbles s) start) \<and> i \<in> set (cluster (bubbles s) start)
        then (bubbles s ! i)\<lparr>active := False\<rparr> else bubbles s ! i)"
proof -
  show "length (bubbles (fst (checkMatches s start))) = length (bubbles s)"
  proof (cases "3 \<le> length (cluster (bubbles s) start)")
    case True
    then show ?thesis by (simp add: checkMatches_some(2) foldl_pop_length)
  next
    case False
    then show ?thesis by (simp add: checkMatches_none)
  qed
  assume i: "i < length (bubbles s)"
  show "bubbles (fst (checkMatches s start)) ! i
     = (if 3 \<le> length (cluster (bubbles s) start) \<and> i \<in> set (cluster (bubbles s) start)
        then (bubbles s ! i)\<lparr>active := False\<rparr> else bubbles s ! i)"
  proof (cases "3 \<le> length (cluster (bubbles s) start)")
    case True
    then show ?thesis using i by (simp add: checkMatches_some(2) foldl_pop_nth)
  next
    case False
    then show ?thesis by (simp add: checkMatches_none)
  qed
qed

lemma checkMatches_keeps: "keepsBubbles (bubbles s) (bubbles (fst (checkMatches s start)))"
  by (simp add: keepsBubbles_def onlyDeactivated_def checkMatches_bubbles)

lemma checkMatches_balance:
  assumes "0 \<le> currentBet s"
  shows "balance s \<le> balance (fst (checkMatches s start))"
proof (cases "3 \<le> length (cluster (bubbles s) start)")
  case True
  then show ?thesis
    using winAmount_nonneg [OF assms] by (simp add: checkMatches_some(4))
next
  case False
  then show ?thesis by (simp add: checkMatches_none)
qed

lemma checkMatches_currentBet: "currentBet (fst (checkMatches s start)) = currentBet s"
proof (cases "3 \<le> length (cluster (bubbles s) start)")
  case True
  then show ?thesis by (simp add: checkMatches_some(6))
next
  case False
  then show ?thesis by (simp add: checkMatches_none)
qed

lemma gesture_frame:
  "bubbles (gesture f s) = bubbles s"
  "balance (gesture f s) = balance s"
  "currentBet (gesture f s) = currentBet s"
  by (simp_all add: gesture_def Let_def split: option.splits prod.splits)

lemma pushBall_frame:
  "bubbles (pushBall f s)
     = bubbles s @ [\<lparr>bid = now f, row = 0, col = 0, xpos = fst (ballPos s), ypos = snd (ballPos s),
                    color = selectedColor s, active = True\<rparr>]"
  "balance (pushBall f s) = balance s"
  "currentBet (pushBall f s) = currentBet s"
  by (simp_all add: pushBall_def Let_def)

lemma land_bubbles:
  "bubbles (land f s) = bubbles (fst (checkMatches (pushBall f s) (length (bubbles s))))"
  by (simp add: land_def Let_def)

lemma land_keeps: "keepsBubbles (bubbles s) (bubbles (land f s))"
proof -
  have "keepsBubbles (bubbles s) (bubbles (pushBall f s))"
    by (simp add: pushBall_frame keepsBubbles_append)
  moreover have "keepsBubbles (bubbles (pushBall f s))
                   (bubbles (fst (checkMatches (pushBall f s) (length (bubbles s)))))"
    by (rule checkMatches_keeps)
  ultimately show ?thesis
    unfolding land_bubbles by (rule keepsBubbles_trans)
qed

lemma land_balance:
  assumes "0 \<le> currentBet s"
  shows "balance s \<le> balance (land f s)" and "currentBet (land f s) = currentBet s"
proof -
  have "balance (pushBall f s) \<le> balance (fst (checkMatches (pushBall f s) (length (bubbles s))))"
    using assms by (intro checkMatches_balance) (simp add: pushBall_frame)
  then show "balance s \<le> balance (land f s)"
    by (simp add: land_def Let_def pushBall_frame)
  show "currentBet (land f s) = currentBet s"
    by (simp add: land_def Let_def checkMatches_currentBet pushBall_frame)
qed

lemma flight_keeps: "keepsBubbles (bubbles s) (bubbles (flight f s))"
  using land_keeps [of "s\<lparr>ballPos := (fst (ballPos s) + fst (ballVel s), snd (ballPos s) + snd (ballVel s))\<rparr>" f]
  by (simp add: flight_def Let_def keepsBubbles_refl)

lemma flight_balance:
  assumes "0 \<le> currentBet s"
  shows "balance s \<le> balance (flight f s)" and "currentBet (flight f s) = currentBet s"
  using land_balance [of "s\<lparr>ballPos := (fst (ballPos s) + fst (ballVel s), snd (ballPos s) + snd (ballVel s))\<rparr>" f] assms
  by (simp_all add: flight_def Let_def)

lemma onResults_keeps: "keepsBubbles (bubbles s) (bubbles (onResults f s))"
  using flight_keeps [of "gesture f s" f] by (simp add: onResults_def gesture_frame)

lemma onResults_balance:
  assumes "0 \<le> currentBet s"
  shows "balance s \<le> balance (onResults f s)" and "currentBet (onResults f s) = currentBet s"
  using flight_balance [of "gesture f s" f] assms by (simp_all add: onResults_def gesture_frame)

lemma step_keeps: "keepsBubbles (bubbles s) (bubbles (step e s))"
  by (cases e)
     (simp_all add: handleBet_def handleBonusBuy_def betDown_def betUp_def tick_def Let_def
        keepsBubbles_refl onResults_keeps)

lemma solvent_init: "solvent (initialState width height draw)"
  by (simp add: solvent_def initialState_def updateAvailableColors_def)

lemma solvent_step: "solvent s \<Longrightarrow> solvent (step e s)"
proof (cases e)
  case (Results f)
  assume "solvent s"
  then show ?thesis
    using Results onResults_balance [of s f] by (simp add: solvent_def)
qed (auto simp: solvent_def handleBet_def handleBonusBuy_def betDown_def betUp_def tick_def Let_def)

section \<open>The hint client, step by step\<close>









section \<open>The sample states, written out\<close>

lemma upt_5: "[0 ..< 5] = [0, 1, 2, 3, 4 :: nat]"
  by code_simp

lemma upt_11: "[0 ..< 11] = [0, 1, 2, 3, 4, 5, 6, 7, 8, 9, 10 :: nat]"
  by code_simp

lemma upt_12: "[0 ..< 12] = [0, 1, 2, 3, 4, 5, 6, 7, 8, 9, 10, 11 :: nat]"
  by code_simp

lemma twelve_green:
  "replicate 12 green
     = [green, green, green, green, green, green, green, green, green, green, green, green]"
  by code_simp

lemma initGrid_greenRow: "initGrid 1000 greenRow = topRow (replicate 12 green)"
  unfolding initGrid_def topRow_def twelve_green
  apply (simp only: upt_5 upt_12 upt_11 GRID_COLS_def list.map concat.simps append.simps)
  apply (simp add: greenRow_def gridBubble_def BUBBLE_RADIUS_def GRID_COLS_def Let_def
           upt_12 upt_11)
  done

lemma initGrid_mixedRow: "initGrid 1000 mixedRow = topRow [green, red, green]"
  unfolding initGrid_def topRow_def
  apply (simp only: upt_5 upt_12 upt_11 GRID_COLS_def list.map concat.simps append.simps)
  apply (simp add: mixedRow_def gridBubble_def BUBBLE_RADIUS_def GRID_COLS_def Let_def
           upt_12 upt_11 upt_rec)
  done

lemma initGrid_orangeRow: "initGrid 1000 orangeRow = topRow [orange, orange]"
  unfolding initGrid_def topRow_def
  apply (simp only: upt_5 upt_12 upt_11 GRID_COLS_def list.map concat.simps append.simps)
  apply (simp add: orangeRow_def gridBubble_def BUBBLE_RADIUS_def GRID_COLS_def Let_def
           upt_12 upt_11 upt_rec)
  done

lemma stake30_literal: "stake30 = armed (topRow (replicate 12 green)) [green] green 30"
  unfolding stake30_def armed_def
  by (simp add: initialState_def initGrid_greenRow updateAvailableColors_def insertionOrder_def
        handleBet_def betUp_def SLINGSHOT_BOTTOM_OFFSET_def topRow_def twelve_green upt_12)

lemma mixedArmed_literal: "mixedArmed = armed (topRow [green, red, green]) [green, red] green 10"
  unfolding mixedArmed_def armed_def
  by (simp add: initialState_def initGrid_mixedRow updateAvailableColors_def insertionOrder_def
        handleBet_def SLINGSHOT_BOTTOM_OFFSET_def topRow_def upt_rec)

lemma orangeArmed_literal: "orangeArmed = armed (topRow [orange, orange]) [orange] orange 10"
  unfolding orangeArmed_def armed_def
  by (simp add: initialState_def initGrid_orangeRow updateAvailableColors_def insertionOrder_def
        handleBet_def SLINGSHOT_BOTTOM_OFFSET_def topRow_def upt_rec)

lemma samples_reachable: "reachable stake30" "reachable mixedArmed" "reachable orangeArmed"
  unfolding stake30_def mixedArmed_def orangeArmed_def
  by (intro reachable.after reachable.mounted)+


section \<open>The claims\<close>

text \<open>
  C1.  The credits awarded for a cluster of at least three are the floor of bet times
  multiplier times bonus factor times a third of the cluster size.  The code computes the
  product in doubles and divides by three first: at a stake of 30, a green ball that joins
  the twelve green bubbles of the top row makes a cluster of 13, and the code awards 454
  where the formula gives 455.
\<close>

theorem payout_rounds_below_formula:
  "reachable stake30
   \<and> currentBet stake30 = 30 \<and> bonusTimer stake30 = 0 \<and> selectedColor stake30 = green
   \<and> length (cluster (bubbles (pushBall impact stake30)) 12) = 13
   \<and> lastWin (land impact stake30) = 454
   \<and> balance (land impact stake30) = balance stake30 + 454
   \<and> exactPayout 30 green False 13 = 455"
proof -
  have "reachable stake30"
    by (rule samples_reachable(1))
  moreover have "currentBet stake30 = 30"
    unfolding stake30_literal by code_simp
  moreover have "bonusTimer stake30 = 0"
    unfolding stake30_literal by code_simp
  moreover have "selectedColor stake30 = green"
    unfolding stake30_literal by code_simp
  moreover have "length (cluster (bubbles (pushBall impact stake30)) 12) = 13"
    unfolding stake30_literal by code_simp
  moreover have "lastWin (land impact stake30) = 454"
    unfolding stake30_literal by code_simp
  moreover have "balance (land impact stake30) = balance stake30 + 454"
    unfolding stake30_literal by code_simp
  moreover have "exactPayout 30 green False 13 = 455"
    by code_simp
  ultimately show ?thesis by blast
qed

text \<open>
  C2.  From an active start bubble of the collection, every bubble of the cluster is an
  active bubble of the collection with the colour of the start bubble, joined to it by a
  chain of neighbours that are all active and of that colour.
\<close>

theorem cluster_same_color_connected:
  assumes "start < length bs" and "active (bs ! start)"
  shows "\<forall>i \<in> set (cluster bs start).
           i < length bs \<and> active (bs ! i) \<and> color (bs ! i) = color (bs ! start)
           \<and> sameColorPath bs start i"
proof -
  have "frontier bs start start"
    unfolding frontier_def using assms sameColorPath.origin [of bs start] isNeighbor_refl by blast
  then have "\<forall>i \<in> set (searchLoop bs (color (bs ! start)) [start] {} []). matched bs start i"
    by (intro searchLoop_matched) simp_all
  then show ?thesis
    unfolding cluster_def matched_def .
qed

theorem cluster_same_color_connected_witness:
  "3 < length (bubbles (pushBall impact mixedArmed))
   \<and> active (bubbles (pushBall impact mixedArmed) ! 3)
   \<and> cluster (bubbles (pushBall impact mixedArmed)) 3 = [3, 0]
   \<and> color (bubbles (pushBall impact mixedArmed) ! 2) = green
   \<and> active (bubbles (pushBall impact mixedArmed) ! 0)
   \<and> color (bubbles (pushBall impact mixedArmed) ! 0)
       = color (bubbles (pushBall impact mixedArmed) ! 3)
   \<and> sameColorPath (bubbles (pushBall impact mixedArmed)) 3 0"
proof -
  have a: "3 < length (bubbles (pushBall impact mixedArmed))"
    unfolding mixedArmed_literal by code_simp
  have b: "active (bubbles (pushBall impact mixedArmed) ! 3)"
    unfolding mixedArmed_literal by code_simp
  have c: "cluster (bubbles (pushBall impact mixedArmed)) 3 = [3, 0]"
    unfolding mixedArmed_literal by code_simp
  have d: "color (bubbles (pushBall impact mixedArmed) ! 2) = green"
    unfolding mixedArmed_literal by code_simp
  have "0 \<in> set (cluster (bubbles (pushBall impact mixedArmed)) 3)"
    by (simp add: c)
  with cluster_same_color_connected [OF a b]
  have e: "0 < length (bubbles (pushBall impact mixedArmed))
         \<and> active (bubbles (pushBall impact mixedArmed) ! 0)
         \<and> color (bubbles (pushBall impact mixedArmed) ! 0)
             = color (bubbles (pushBall impact mixedArmed) ! 3)
         \<and> sameColorPath (bubbles (pushBall impact mixedArmed)) 3 0"
    by (rule bspec)
  show ?thesis
    using a b c d e by (intro conjI) (erule conjE | assumption)+
qed

text \<open>
  C3.  When the cluster found from the start bubble has fewer than three bubbles, match
  resolution returns the state as it was and reports no match; when it has three or more,
  it reports a match and every bubble of the cluster is inactive afterwards.
\<close>

theorem small_cluster_is_noop:
  assumes "start < length (bubbles s)"
  shows "(length (cluster (bubbles s) start) < 3 \<longrightarrow> checkMatches s start = (s, False))
       \<and> (3 \<le> length (cluster (bubbles s) start) \<longrightarrow>
            snd (checkMatches s start)
            \<and> (\<forall>i \<in> set (cluster (bubbles s) start).
                  \<not> active (bubbles (fst (checkMatches s start)) ! i)))"
proof (intro conjI impI ballI)
  assume "length (cluster (bubbles s) start) < 3"
  then show "checkMatches s start = (s, False)"
    by (rule checkMatches_none)
next
  assume "3 \<le> length (cluster (bubbles s) start)"
  then show "snd (checkMatches s start)"
    by (rule checkMatches_some(1))
next
  fix i
  assume big: "3 \<le> length (cluster (bubbles s) start)"
    and i: "i \<in> set (cluster (bubbles s) start)"
  have "i < length (bubbles s)"
    using assms i by (rule cluster_in_range)
  then have "bubbles (fst (checkMatches s start)) ! i = (bubbles s ! i)\<lparr>active := False\<rparr>"
    using big i by (simp add: checkMatches_bubbles(2))
  then show "\<not> active (bubbles (fst (checkMatches s start)) ! i)"
    by simp
qed

theorem small_cluster_is_noop_witness:
  "3 < length (bubbles (pushBall impact mixedArmed))
   \<and> length (cluster (bubbles (pushBall impact mixedArmed)) 3) < 3
   \<and> checkMatches (pushBall impact mixedArmed) 3 = (pushBall impact mixedArmed, False)
   \<and> 2 < length (bubbles (pushBall impact orangeArmed))
   \<and> cluster (bubbles (pushBall impact orangeArmed)) 2 = [2, 1, 0]
   \<and> snd (checkMatches (pushBall impact orangeArmed) 2)
   \<and> \<not> active (bubbles (fst (checkMatches (pushBall impact orangeArmed) 2)) ! 0)
   \<and> \<not> active (bubbles (fst (checkMatches (pushBall impact orangeArmed) 2)) ! 1)
   \<and> \<not> active (bubbles (fst (checkMatches (pushBall impact orangeArmed) 2)) ! 2)"
proof -
  have a: "3 < length (bubbles (pushBall impact mixedArmed))"
    unfolding mixedArmed_literal by code_simp
  have b: "length (cluster (bubbles (pushBall impact mixedArmed)) 3) < 3"
    unfolding mixedArmed_literal by code_simp
  have c: "2 < length (bubbles (pushBall impact orangeArmed))"
    unfolding orangeArmed_literal by code_simp
  have d: "cluster (bubbles (pushBall impact orangeArmed)) 2 = [2, 1, 0]"
    unfolding orangeArmed_literal by code_simp
  have e: "3 \<le> length (cluster (bubbles (pushBall impact orangeArmed)) 2)"
    by (simp add: d)
  have f: "checkMatches (pushBall impact mixedArmed) 3 = (pushBall impact mixedArmed, False)"
    using small_cluster_is_noop [OF a] b by blast
  have g: "snd (checkMatches (pushBall impact orangeArmed) 2)
         \<and> (\<forall>i \<in> set (cluster (bubbles (pushBall impact orangeArmed)) 2).
               \<not> active (bubbles (fst (checkMatches (pushBall impact orangeArmed) 2)) ! i))"
    using small_cluster_is_noop [OF c] e by blast
  then have h: "\<not> active (bubbles (fst (checkMatches (pushBall impact orangeArmed) 2)) ! 0)"
    "\<not> active (bubbles (fst (checkMatches (pushBall impact orangeArmed) 2)) ! 1)"
    "\<not> active (bubbles (fst (checkMatches (pushBall impact orangeArmed) 2)) ! 2)"
    unfolding d by simp_all
  show ?thesis
    using a b c d f g h by (intro conjI) (erule conjE | assumption)+
qed




text \<open>
  C6.  A bet the balance does not cover leaves the state as it is; so does a bonus
  purchase the balance does not cover, which raises an alert.  A bonus purchase the balance
  covers deducts a hundred times the bet, sets the bonus timer to 15 and clears the last
  win, whatever the board holds.
\<close>

theorem insufficient_balance_rejected:
  "(balance s < currentBet s \<longrightarrow> handleBet s = s)
   \<and> (balance s < currentBet s * 100 \<longrightarrow>
        handleBonusBuy s = (s, Some ''Insufficient balance for Feature Buy!''))
   \<and> (currentBet s * 100 \<le> balance s \<longrightarrow>
        handleBonusBuy s
          = (s\<lparr>balance := balance s - currentBet s * 100, bonusTimer := 15, lastWin := 0\<rparr>, None))"
  by (simp add: handleBet_def handleBonusBuy_def Let_def)

theorem insufficient_balance_rejected_witness:
  "balance (stake30\<lparr>balance := 20\<rparr>) < currentBet (stake30\<lparr>balance := 20\<rparr>)
   \<and> handleBet (stake30\<lparr>balance := 20\<rparr>) = stake30\<lparr>balance := 20\<rparr>
   \<and> handleBonusBuy (stake30\<lparr>balance := 20\<rparr>)
       = (stake30\<lparr>balance := 20\<rparr>, Some ''Insufficient balance for Feature Buy!'')
   \<and> currentBet mixedArmed * 100 \<le> balance (mixedArmed\<lparr>balance := 1200\<rparr>)
   \<and> handleBonusBuy (mixedArmed\<lparr>balance := 1200\<rparr>)
       = (mixedArmed\<lparr>balance := 200, bonusTimer := 15, lastWin := 0\<rparr>, None)"
proof -
  have bet: "currentBet stake30 = 30" "currentBet mixedArmed = 10"
    unfolding stake30_literal mixedArmed_literal by (simp_all add: armed_def)
  have a: "balance (stake30\<lparr>balance := 20\<rparr>) < currentBet (stake30\<lparr>balance := 20\<rparr>)"
    by (simp add: bet)
  have b: "balance (stake30\<lparr>balance := 20\<rparr>) < currentBet (stake30\<lparr>balance := 20\<rparr>) * 100"
    by (simp add: bet)
  have c: "currentBet (mixedArmed\<lparr>balance := 1200\<rparr>) * 100 \<le> balance (mixedArmed\<lparr>balance := 1200\<rparr>)"
    by (simp add: bet)
  have "handleBet (stake30\<lparr>balance := 20\<rparr>) = stake30\<lparr>balance := 20\<rparr>"
    using insufficient_balance_rejected [of "stake30\<lparr>balance := 20\<rparr>"] a by blast
  moreover have "handleBonusBuy (stake30\<lparr>balance := 20\<rparr>)
       = (stake30\<lparr>balance := 20\<rparr>, Some ''Insufficient balance for Feature Buy!'')"
    using insufficient_balance_rejected [of "stake30\<lparr>balance := 20\<rparr>"] b by blast
  moreover have "handleBonusBuy (mixedArmed\<lparr>balance := 1200\<rparr>)
       = (mixedArmed\<lparr>balance := 200, bonusTimer := 15, lastWin := 0\<rparr>, None)"
    using insufficient_balance_rejected [of "mixedArmed\<lparr>balance := 1200\<rparr>"] c
    by (simp add: bet)
  ultimately show ?thesis
    using a c by simp
qed

text \<open>
  C7.  A match of three or more bubbles sets the bonus timer to 15 when its colour is
  orange, whatever the size of the cluster and whatever the timer held, and leaves the
  timer as it was when its colour is any other.
\<close>

theorem orange_match_sets_bonus_timer:
  assumes "3 \<le> length (cluster (bubbles s) start)"
  shows "bonusTimer (fst (checkMatches s start))
         = (if color (bubbles s ! start) = orange then 15 else bonusTimer s)"
  using assms by (rule checkMatches_some(5))

theorem orange_match_sets_bonus_timer_witness:
  "3 \<le> length (cluster (bubbles ((pushBall impact orangeArmed)\<lparr>bonusTimer := 7\<rparr>)) 2)
   \<and> bonusTimer (fst (checkMatches ((pushBall impact orangeArmed)\<lparr>bonusTimer := 7\<rparr>) 2)) = 15
   \<and> 3 \<le> length (cluster (bubbles ((pushBall impact stake30)\<lparr>bonusTimer := 7\<rparr>)) 12)
   \<and> bonusTimer (fst (checkMatches ((pushBall impact stake30)\<lparr>bonusTimer := 7\<rparr>) 12)) = 7"
proof -
  have a: "3 \<le> length (cluster (bubbles ((pushBall impact orangeArmed)\<lparr>bonusTimer := 7\<rparr>)) 2)"
    unfolding orangeArmed_literal by code_simp
  have b: "color (bubbles (pushBall impact orangeArmed) ! 2) = orange"
    unfolding orangeArmed_literal by code_simp
  have c: "3 \<le> length (cluster (bubbles ((pushBall impact stake30)\<lparr>bonusTimer := 7\<rparr>)) 12)"
    unfolding stake30_literal by code_simp
  have d: "color (bubbles (pushBall impact stake30) ! 12) = green"
    unfolding stake30_literal by code_simp
  show ?thesis
    using a c orange_match_sets_bonus_timer [OF a] orange_match_sets_bonus_timer [OF c]
    by (simp add: b d)
qed

text \<open>
  C8.  In every state the component can reach from its mounting, by bets, bonus
  purchases, stake changes, timer ticks, colour choices and frames, the balance is not
  negative.
\<close>

theorem balance_never_negative:
  assumes "reachable s"
  shows "0 \<le> balance s"
proof -
  from assms have "solvent s"
    by induction (simp_all add: solvent_init solvent_step)
  then show ?thesis
    by (simp add: solvent_def)
qed

theorem balance_never_negative_witness:
  "reachable stake30 \<and> balance stake30 = 970 \<and> 0 \<le> balance stake30"
proof -
  have "balance stake30 = 970"
    unfolding stake30_literal by (simp add: armed_def)
  then show ?thesis
    using samples_reachable(1) balance_never_negative [OF samples_reachable(1)] by simp
qed

text \<open>
  C9.  Every operation keeps every bubble of the collection at its place, the same or
  with its active flag cleared, and only ever lengthens the collection; a collision
  appends the ball at the position of the impact; match resolution clears the flag of the
  bubbles of a cluster of three or more and changes no other bubble and no other field.
\<close>

theorem bubbles_never_removed:
  "keepsBubbles (bubbles s) (bubbles (step e s))
   \<and> bubbles (pushBall f s)
       = bubbles s @ [\<lparr>bid = now f, row = 0, col = 0, xpos = fst (ballPos s),
                      ypos = snd (ballPos s), color = selectedColor s, active = True\<rparr>]
   \<and> length (bubbles (fst (checkMatches s start))) = length (bubbles s)
   \<and> (\<forall>i < length (bubbles s).
         bubbles (fst (checkMatches s start)) ! i
           = (if 3 \<le> length (cluster (bubbles s) start) \<and> i \<in> set (cluster (bubbles s) start)
              then (bubbles s ! i)\<lparr>active := False\<rparr> else bubbles s ! i))"
  by (simp add: step_keeps pushBall_frame(1) checkMatches_bubbles)

theorem bubbles_never_removed_witness:
  "keepsBubbles (bubbles orangeArmed) (bubbles (step (Results impact) orangeArmed))
   \<and> length (bubbles (fst (checkMatches (pushBall impact orangeArmed) 2))) = 3
   \<and> cluster (bubbles (pushBall impact orangeArmed)) 2 = [2, 1, 0]
   \<and> bubbles (fst (checkMatches (pushBall impact orangeArmed) 2)) ! 1
       = (bubbles (pushBall impact orangeArmed) ! 1)\<lparr>active := False\<rparr>
   \<and> cluster (bubbles (pushBall impact mixedArmed)) 3 = [3, 0]
   \<and> bubbles (fst (checkMatches (pushBall impact mixedArmed) 3)) ! 1
       = bubbles (pushBall impact mixedArmed) ! 1"
proof -
  have a: "length (bubbles (pushBall impact orangeArmed)) = 3"
    unfolding orangeArmed_literal by code_simp
  have b: "cluster (bubbles (pushBall impact orangeArmed)) 2 = [2, 1, 0]"
    unfolding orangeArmed_literal by code_simp
  have c: "length (bubbles (pushBall impact mixedArmed)) = 4"
    unfolding mixedArmed_literal by code_simp
  have d: "cluster (bubbles (pushBall impact mixedArmed)) 3 = [3, 0]"
    unfolding mixedArmed_literal by code_simp
  have "keepsBubbles (bubbles orangeArmed) (bubbles (step (Results impact) orangeArmed))"
    using bubbles_never_removed [where s = orangeArmed and e = "Results impact"] by blast
  moreover have "length (bubbles (fst (checkMatches (pushBall impact orangeArmed) 2))) = 3"
    using bubbles_never_removed [where s = "pushBall impact orangeArmed" and start = 2] a by simp
  moreover have "bubbles (fst (checkMatches (pushBall impact orangeArmed) 2)) ! 1
       = (bubbles (pushBall impact orangeArmed) ! 1)\<lparr>active := False\<rparr>"
    using bubbles_never_removed [where s = "pushBall impact orangeArmed" and start = 2] a b by simp
  moreover have "bubbles (fst (checkMatches (pushBall impact mixedArmed) 3)) ! 1
       = bubbles (pushBall impact mixedArmed) ! 1"
    using bubbles_never_removed [where s = "pushBall impact mixedArmed" and start = 3] c d by simp
  ultimately show ?thesis
    using b d by simp
qed



end
